theory Spec2Isabelle
  imports Main "HOL-Library.Word" "HOL-Library.AList" "HOL-Library.Multiset"
begin

section \<open>The Kurento websocket connection: data model\<close>

text \<open>
  The development follows the current revision of the connection (the one whose
  \<^verbatim>\<open>Response.Id\<close> is an \<^verbatim>\<open>int64\<close> and whose counter is an \<^verbatim>\<open>atomic.Int64\<close>).
  Every goroutine step is taken as one atomic transition on an explicit state, so a
  concurrent execution is read as an interleaving of these transitions.
\<close>

type_synonym int64 = "64 word"

text \<open>
  A Go \<^verbatim>\<open>interface{}\<close> value, with the dynamic types that occur in request maps and in
  decoded JSON: \<^verbatim>\<open>nil\<close>, \<^verbatim>\<open>bool\<close>, \<^verbatim>\<open>int\<close>, \<^verbatim>\<open>int64\<close>, \<^verbatim>\<open>float64\<close> (its IEEE bit pattern,
  never inspected here), \<^verbatim>\<open>string\<close>, \<^verbatim>\<open>[]interface{}\<close> and \<^verbatim>\<open>map[string]interface{}\<close>.
  A Go map is a finite association list; its iteration order is not fixed by Go, so
  nothing below depends on the order of a list that stands for a map.
\<close>

datatype iface =
    INil
  | IBool bool
  | IInt int64
  | IInt64 int64
  | IFloat64 "64 word"
  | IString string
  | ISlice "iface list"
  | IMap "(string \<times> iface) list"

type_synonym gomap = "(string \<times> iface) list"

text \<open>\<^verbatim>\<open>m[k]\<close> on a \<^verbatim>\<open>map[string]interface{}\<close> that may be nil: a missing key (and every
  key of a nil map) reads as the nil interface.\<close>

definition index_map :: "gomap option \<Rightarrow> string \<Rightarrow> iface" where
  "index_map m k =
     (case m of
        None \<Rightarrow> INil
      | Some al \<Rightarrow> (case map_of al k of None \<Rightarrow> INil | Some v \<Rightarrow> v))"

text \<open>The type assertions \<^verbatim>\<open>x.(string)\<close>, \<^verbatim>\<open>x.(int64)\<close> and
  \<^verbatim>\<open>x.(map[string]interface{})\<close>: \<open>None\<close> where the dynamic type differs. The comma-ok
  form of the source reads \<open>None\<close> as \<^verbatim>\<open>ok == false\<close>, the single-value form panics.\<close>

fun assert_string :: "iface \<Rightarrow> string option" where
  "assert_string (IString s) = Some s"
| "assert_string _ = None"

fun assert_int64 :: "iface \<Rightarrow> int64 option" where
  "assert_int64 (IInt64 i) = Some i"
| "assert_int64 _ = None"

fun assert_map :: "iface \<Rightarrow> gomap option" where
  "assert_map (IMap m) = Some m"
| "assert_map _ = None"

record Error =
  Code :: int64
  Message :: string
  Data :: iface

definition ConnectionLost :: int64 where
  "ConnectionLost = - 1"

record Event =
  Jsonrpc :: string
  Method :: string
  Params :: "gomap option"
  Error :: "Error option"

record Response =
  Jsonrpc :: string
  Id :: int64
  Result :: "gomap option"
  Error :: "Error option"

text \<open>
  \<^verbatim>\<open>encoding/json\<close> is a library, not part of the repository: what
  \<^verbatim>\<open>json.Unmarshal\<close> does with a received text is an input of the model. A received
  message carries its text, whether it is valid JSON at all, and for each of the two
  structs the loop decodes it into, whether \<^verbatim>\<open>json.Unmarshal\<close> returned an error and
  the struct as the call left it.

  The other thing an iteration of the receive loop depends on and cannot decide is the
  caller of \<^verbatim>\<open>Request\<close> that holds the channel registered under the id of the frame:
  \<open>waiter_receives\<close> says whether that caller is receiving on the channel when the loop
  sends on it. The callers in the repository receive as soon as \<^verbatim>\<open>Request\<close> has returned
  (\<^verbatim>\<open><-elem.connection.Request(req)\<close>), but nothing makes a caller do so.
\<close>

record message =
  raw_text :: string
  valid_json :: bool
  Response_err :: bool
  Response_struct :: Response
  Event_err :: bool
  Event_struct :: Event
  waiter_receives :: bool

datatype received = ReceiveError | Received message

text \<open>\<^verbatim>\<open>func (r *Response) unmarshal\<close> and \<^verbatim>\<open>func (e *Event) unmarshal\<close>, given what
  \<^verbatim>\<open>json.Unmarshal\<close> did.\<close>

definition Response_unmarshal :: "bool \<Rightarrow> Response \<Rightarrow> bool" where
  "Response_unmarshal err r =
     (if err then False
      else 0 <s Id r \<and> (Result r \<noteq> None \<or> Response.Error r \<noteq> None))"

definition Event_unmarshal :: "bool \<Rightarrow> Event \<Rightarrow> bool" where
  "Event_unmarshal err e =
     (if err then False
      else Method e = ''onEvent'')"

subsection \<open>Channels, faults, log lines\<close>

text \<open>
  A channel: its capacity, the values sent on it that the model has not taken off again,
  and whether it is closed. A send on a closed channel panics; a send on a full buffered
  channel does not return until a receiver makes room, which a transition cannot do by
  itself, so it is the fault \<open>Blocked\<close>. A send on an unbuffered channel completes only
  when a receiver takes the value: \<open>chan_send\<close> is told whether a receiver is waiting on
  the channel, and without one the send is \<open>Blocked\<close> as well. The receivers of the
  response channels are the callers of \<^verbatim>\<open>Request\<close>, outside the model, so \<open>buf\<close> of a
  response channel lists what the channel has yielded or holds for its receiver, in order.
\<close>

datatype fault = Panic string | Blocked string

record 'a chan =
  cap :: nat
  buf :: "'a list"
  closed :: bool

definition make_chan :: "nat \<Rightarrow> 'a chan" where
  "make_chan n = \<lparr>cap = n, buf = [], closed = False\<rparr>"

definition chan_send :: "bool \<Rightarrow> 'a chan \<Rightarrow> 'a \<Rightarrow> fault + 'a chan" where
  "chan_send receiver ch x =
     (if closed ch then Inl (Panic ''send on closed channel'')
      else if cap ch = 0 then
        (if receiver then Inr (ch\<lparr>buf := buf ch @ [x]\<rparr>)
         else Inl (Blocked ''send on unbuffered channel''))
      else if length (buf ch) < cap ch then Inr (ch\<lparr>buf := buf ch @ [x]\<rparr>)
      else Inl (Blocked ''send on full channel''))"

definition chan_close :: "'a chan \<Rightarrow> fault + 'a chan" where
  "chan_close ch =
     (if closed ch then Inl (Panic ''close of closed channel'')
      else Inr (ch\<lparr>closed := True\<rparr>))"

text \<open>The package-level \<^verbatim>\<open>logLevel\<close> and the constants it is compared with are declared
  outside the files at hand; they are parameters.\<close>

record config =
  logLevel :: int
  LogLevelDebug :: int
  LogLevelSilly :: int

type_synonym eventHandler = nat

datatype logline =
    LStartReceive
  | LErrorReceiving
  | LReceivedMessage
  | LRaw string
  | LInvalidJSON
  | LSessionIdReturned iface
  | LResponse Response
  | LSendingResponse int64
  | LFinishedResponse int64
  | LDropped int64
  | LDroppedResponse Response
  | LSendingEvent string
  | LFinishedEvent string
  | LUnsupported string
  | LEventValue gomap
  | LLoop0Start string
  | LLoop1Start string string
  | LLoop2Start string string string
  | LLoop2End string string string
  | LLoop1End string string
  | LLoop0End string
  | LJson gomap
  | LErrorSending

subsection \<open>The connection\<close>

text \<open>
  The fields of \<^verbatim>\<open>Connection\<close> that the code reads or writes after construction, and what
  they refer to: \<open>heap\<close> holds the response channels (a channel value is its index, so a
  channel made later is a different channel), \<open>ws_out\<close> the envelopes handed to
  \<^verbatim>\<open>websocket.JSON.Send\<close>, \<open>logs\<close> the lines printed, \<open>invoked\<close> the callbacks called with
  their argument. Callbacks are opaque: a call is recorded and has no other effect.
\<close>

record Connection =
  clientId :: int64
  clients :: "(int64 \<times> nat) list"
  host :: string
  SessionId :: string
  events :: "(string \<times> (string \<times> (string \<times> eventHandler) list) list) list"
  eChan :: "Event chan"
  Dead :: "bool chan"
  IsDead :: bool
  heap :: "Response chan list"
  ws_out :: "gomap list"
  logs :: "logline list"
  invoked :: "(eventHandler \<times> gomap) list"



definition logf :: "bool \<Rightarrow> logline \<Rightarrow> Connection \<Rightarrow> Connection" where
  "logf b l c = (if b then c\<lparr>logs := logs c @ [l]\<rparr> else c)"

definition silly :: "config \<Rightarrow> bool" where
  "silly cfg = (LogLevelSilly cfg \<le> logLevel cfg)"


section \<open>The receive loop\<close>

text \<open>\<^verbatim>\<open>handleResponse\<close>, the block that saves a session id the response brings.\<close>

definition saveSessionId :: "config \<Rightarrow> Response \<Rightarrow> Connection \<Rightarrow> Connection" where
  "saveSessionId cfg r c =
     (case assert_string (index_map (Result r) ''sessionId'') of
        None \<Rightarrow> c
      | Some sessionID \<Rightarrow>
          if sessionID \<noteq> [] \<and> SessionId c \<noteq> sessionID
          then (logf (0 < logLevel cfg)
                  (LSessionIdReturned (index_map (Result r) ''sessionId'')) c)
               \<lparr>SessionId := sessionID\<rparr>
          else c)"

text \<open>\<^verbatim>\<open>handleResponse\<close>, the block that hands the response to the client waiting for its
  id: send on the client's channel, close it, delete the entry. The channel is unbuffered,
  so the send waits for the client to receive (\<open>receiver\<close>), and the close and the delete
  come after it. A channel value of Go always refers to a channel; the index check only
  makes the function total.\<close>

definition sendToClient ::
  "config \<Rightarrow> bool \<Rightarrow> Response \<Rightarrow> Connection \<Rightarrow> fault + Connection" where
  "sendToClient cfg receiver r c =
     (case map_of (clients c) (Id r) of
        None \<Rightarrow>
          Inr (logf (0 < logLevel cfg) (LDroppedResponse r)
                (logf (0 < logLevel cfg) (LDropped (Id r)) c))
      | Some ch \<Rightarrow>
          (let c1 = logf (silly cfg) (LSendingResponse (Id r)) c in
           if length (heap c1) \<le> ch then Inl (Panic ''no such channel'')
           else
             (case chan_send receiver (heap c1 ! ch) r of
                Inl f \<Rightarrow> Inl f
              | Inr ch1 \<Rightarrow>
                  (case chan_close ch1 of
                     Inl f \<Rightarrow> Inl f
                   | Inr ch2 \<Rightarrow>
                       Inr (logf (silly cfg) (LFinishedResponse (Id r))
                             (c1\<lparr>heap := (heap c1)[ch := ch2],
                                 clients := AList.delete (Id r) (clients c1)\<rparr>))))))"

text \<open>One iteration of the loop of \<^verbatim>\<open>handleResponse\<close>, on what
  \<^verbatim>\<open>websocket.Message.Receive\<close> returned. The flag says whether the loop goes on
  (\<^verbatim>\<open>continue\<close> or the end of the body) or has left through \<^verbatim>\<open>break\<close>.\<close>

definition handleResponse_iter ::
  "config \<Rightarrow> Connection \<Rightarrow> received \<Rightarrow> fault + (Connection \<times> bool)" where
  "handleResponse_iter cfg c0 rcv =
     (let c = logf (silly cfg) LStartReceive c0 in
      case rcv of
        ReceiveError \<Rightarrow>
          (let c1 = (logf True LErrorReceiving c)\<lparr>IsDead := True\<rparr> in
           case chan_send False (Dead c1) True of
             Inl f \<Rightarrow> Inl f
           | Inr d \<Rightarrow>
               (case chan_close (eChan c1) of
                  Inl f \<Rightarrow> Inl f
                | Inr e \<Rightarrow> Inr (c1\<lparr>Dead := d, eChan := e\<rparr>, False)))
      | Received m \<Rightarrow>
          (let c1 = logf (LogLevelDebug cfg < logLevel cfg) (LRaw (raw_text m))
                      (logf (silly cfg) LReceivedMessage c) in
           if \<not> valid_json m then Inr (logf True LInvalidJSON c1, True)
           else
             (let r = Response_struct m;
                  ev = Event_struct m;
                  isResponse = Response_unmarshal (Response_err m) r;
                  isEvent = Event_unmarshal (Event_err m) ev in
              if isResponse then
                (case sendToClient cfg (waiter_receives m) r
                        (logf (0 < logLevel cfg) (LResponse r) (saveSessionId cfg r c1)) of
                   Inl f \<Rightarrow> Inl f
                 | Inr c2 \<Rightarrow> Inr (c2, True))
              else if isEvent then
                (let c2 = logf (silly cfg) (LSendingEvent (Method ev)) c1 in
                 case chan_send False (eChan c2) ev of
                   Inl f \<Rightarrow> Inl f
                 | Inr e \<Rightarrow>
                     Inr (logf (silly cfg) (LFinishedEvent (Method ev)) (c2\<lparr>eChan := e\<rparr>),
                          True))
              else Inr (logf True (LUnsupported (raw_text m)) c1, True))))"

text \<open>The loop itself, on the finite sequence of results its receives have produced so
  far: it stops at the first \<^verbatim>\<open>break\<close>.\<close>

fun handleResponse :: "config \<Rightarrow> Connection \<Rightarrow> received list \<Rightarrow> fault + Connection" where
  "handleResponse cfg c [] = Inr c"
| "handleResponse cfg c (rcv # rest) =
     (case handleResponse_iter cfg c rcv of
        Inl f \<Rightarrow> Inl f
      | Inr (c', go_on) \<Rightarrow> if go_on then handleResponse cfg c' rest else Inr c')"

section \<open>The event loop\<close>

definition call_handler ::
  "config \<Rightarrow> string \<Rightarrow> string \<Rightarrow> gomap \<Rightarrow> string \<times> eventHandler \<Rightarrow> Connection \<Rightarrow> Connection"
  where
  "call_handler cfg t objectId data nh c =
     (let c1 = logf (silly cfg) (LLoop2Start t objectId (fst nh)) c;
          c2 = c1\<lparr>invoked := invoked c1 @ [(snd nh, data)]\<rparr>
      in logf (silly cfg) (LLoop2End t objectId (fst nh)) c2)"

text \<open>The body of the loop of \<^verbatim>\<open>handleEvents\<close> for one event taken from \<^verbatim>\<open>eChan\<close>. Its
  four type assertions are of the single-value form: each panics where the value has
  another dynamic type.\<close>

definition handleEvents_body :: "config \<Rightarrow> Connection \<Rightarrow> Event \<Rightarrow> fault + Connection" where
  "handleEvents_body cfg c ev =
     (case assert_map (index_map (Params ev) ''value'') of
        None \<Rightarrow> Inl (Panic ''interface conversion'')
      | Some val \<Rightarrow>
          (let c1 = logf (0 < logLevel cfg) (LEventValue val) c in
           case assert_string (index_map (Some val) ''type'') of
             None \<Rightarrow> Inl (Panic ''interface conversion'')
           | Some t \<Rightarrow>
               (case assert_string (index_map (Some val) ''object'') of
                  None \<Rightarrow> Inl (Panic ''interface conversion'')
                | Some objectId \<Rightarrow>
                    (case assert_map (index_map (Some val) ''data'') of
                       None \<Rightarrow> Inl (Panic ''interface conversion'')
                     | Some data \<Rightarrow>
                         Inr (case map_of (events c1) t of
                                None \<Rightarrow> c1
                              | Some handlers \<Rightarrow>
                                  (let c2 = logf (silly cfg) (LLoop0Start t) c1;
                                       c3 =
                                         (case map_of handlers objectId of
                                            None \<Rightarrow> c2
                                          | Some objHandlers \<Rightarrow>
                                              logf (silly cfg) (LLoop1End t objectId)
                                                (fold (call_handler cfg t objectId data)
                                                   objHandlers
                                                   (logf (silly cfg) (LLoop1Start t objectId)
                                                      c2)))
                                   in logf (silly cfg) (LLoop0End t) c3))))))"

text \<open>One iteration of \<^verbatim>\<open>for ev := range c.eChan\<close>: the loop ends when the channel is
  closed and drained, and waits while it is open and empty.\<close>

definition handleEvents_iter :: "config \<Rightarrow> Connection \<Rightarrow> fault + (Connection \<times> bool)" where
  "handleEvents_iter cfg c =
     (case buf (eChan c) of
        [] \<Rightarrow>
          if closed (eChan c) then Inr (c, False)
          else Inl (Blocked ''receive on empty channel'')
      | ev # rest \<Rightarrow>
          (case handleEvents_body cfg (c\<lparr>eChan := (eChan c)\<lparr>buf := rest\<rparr>\<rparr>) ev of
             Inl f \<Rightarrow> Inl f
           | Inr c' \<Rightarrow> Inr (c', True)))"

section \<open>Requests\<close>

text \<open>The response that \<^verbatim>\<open>Request\<close> makes up itself, in both places where it does.\<close>

definition errresp :: "int64 \<Rightarrow> Response" where
  "errresp i =
     \<lparr>Jsonrpc = [], Id = i, Result = None,
      Error = Some \<lparr>Code = ConnectionLost,
                    Message = ''No connection to Kurento server'',
                    Data = INil\<rparr>\<rparr>"

text \<open>
  \<^verbatim>\<open>func (c *Connection) Request\<close>. \<open>send_ok\<close> is what \<^verbatim>\<open>websocket.JSON.Send\<close>
  returns if it is called. The result is the connection, the caller's map as the call
  leaves it, and the channel returned (\<open>None\<close> for a nil channel).
\<close>

definition Request ::
  "config \<Rightarrow> bool \<Rightarrow> Connection \<Rightarrow> gomap option
     \<Rightarrow> fault + (Connection \<times> gomap option \<times> nat option)" where
  "Request cfg send_ok c req =
     (if IsDead c then
        (let errchan = length (heap c);
             resp =
               (case (case req of None \<Rightarrow> None | Some m \<Rightarrow> map_of m ''id'') of
                  None \<Rightarrow> errresp 0
                | Some idInterface \<Rightarrow>
                    (case assert_int64 idInterface of
                       None \<Rightarrow> errresp 0
                     | Some i \<Rightarrow> (errresp 0)\<lparr>Id := i\<rparr>))
         in case chan_send False (make_chan 1) resp of
              Inl f \<Rightarrow> Inl f
            | Inr e \<Rightarrow> Inr (c\<lparr>heap := heap c @ [e]\<rparr>, req, Some errchan))
      else
        (let reqId = clientId c + 1;
             c1 = c\<lparr>clientId := reqId\<rparr>
         in case req of
              None \<Rightarrow> Inl (Panic ''assignment to entry in nil map'')
            | Some m \<Rightarrow>
                (let m1 = AList.update ''id'' (IInt64 reqId) m;
                     m2 = (if SessionId c1 \<noteq> []
                           then AList.update ''sessionId'' (IString (SessionId c1)) m1
                           else m1);
                     c2 = c1\<lparr>clients := AList.update reqId (length (heap c1)) (clients c1),
                             heap := heap c1 @ [make_chan 0]\<rparr>;
                     c3 = logf (0 < logLevel cfg) (LJson m2) c2;
                     c4 = c3\<lparr>ws_out := ws_out c3 @ [m2]\<rparr>
                 in if \<not> send_ok then
                      (let c5 = logf True LErrorSending c4 in
                       case chan_send False (Dead c5) True of
                         Inl f \<Rightarrow> Inl f
                       | Inr d \<Rightarrow>
                           (let c6 = c5\<lparr>Dead := d, IsDead := True,
                                       clients := AList.delete reqId (clients c5)\<rparr>;
                                errchan = length (heap c6)
                            in case assert_int64 (index_map (Some m2) ''id'') of
                                 None \<Rightarrow> Inl (Panic ''interface conversion'')
                               | Some i \<Rightarrow>
                                   (case chan_send False (make_chan 1) (errresp i) of
                                      Inl f \<Rightarrow> Inl f
                                    | Inr e \<Rightarrow>
                                        Inr (c6\<lparr>heap := heap c6 @ [e]\<rparr>, Some m2,
                                             Some errchan))))
                    else Inr (c4, Some m2, map_of (clients c4) reqId))))"

section \<open>Subscriptions\<close>

text \<open>\<^verbatim>\<open>Subscribe\<close> and \<^verbatim>\<open>Unsubscribe\<close> change the inner maps in place, through the
  references held by the outer ones; no other reference to an inner map exists, so the
  update is written out on the nested lists.\<close>

definition Subscribe ::
  "Connection \<Rightarrow> string \<Rightarrow> string \<Rightarrow> string \<Rightarrow> eventHandler \<Rightarrow> Connection" where
  "Subscribe c event objectId handlerId handler =
     (let oh = (case map_of (events c) event of None \<Rightarrow> [] | Some oh \<Rightarrow> oh);
          he = (case map_of oh objectId of None \<Rightarrow> [] | Some he \<Rightarrow> he)
      in c\<lparr>events :=
             AList.update event
               (AList.update objectId (AList.update handlerId handler he) oh)
               (events c)\<rparr>)"

definition Unsubscribe :: "Connection \<Rightarrow> string \<Rightarrow> string \<Rightarrow> string \<Rightarrow> Connection" where
  "Unsubscribe c event objectId handlerId =
     (case map_of (events c) event of
        None \<Rightarrow> c
      | Some oh \<Rightarrow>
          (case map_of oh objectId of
             None \<Rightarrow> c
           | Some he \<Rightarrow>
               c\<lparr>events :=
                   AList.update event
                     (AList.update objectId (AList.delete handlerId he) oh)
                     (events c)\<rparr>))"

text \<open>The inner map \<^verbatim>\<open>handleEvents\<close> ranges over for an event name and an object id
  (empty where either lookup fails), and the callback registered under an event name, an
  object id and a handler id.\<close>

definition handlers_of :: "Connection \<Rightarrow> string \<Rightarrow> string \<Rightarrow> (string \<times> eventHandler) list" where
  "handlers_of c event objectId =
     (case map_of (events c) event of
        None \<Rightarrow> []
      | Some oh \<Rightarrow> (case map_of oh objectId of None \<Rightarrow> [] | Some he \<Rightarrow> he))"

definition subscriber :: "Connection \<Rightarrow> string \<Rightarrow> string \<Rightarrow> string \<Rightarrow> eventHandler option" where
  "subscriber c event objectId handlerId =
     (case map_of (events c) event of
        None \<Rightarrow> None
      | Some oh \<Rightarrow>
          (case map_of oh objectId of
             None \<Rightarrow> None
           | Some he \<Rightarrow> map_of he handlerId))"

section \<open>Executions\<close>

text \<open>
  What can happen to a connection, one transition at a time: a caller's \<^verbatim>\<open>Request\<close>, an
  iteration of the receive loop, an iteration of the event loop, a \<^verbatim>\<open>Subscribe\<close> or an
  \<^verbatim>\<open>Unsubscribe\<close>, and a reader taking the value off the exported \<^verbatim>\<open>Dead\<close> channel.
  A transition that panics or cannot complete has no successor, so an execution is a
  sequence of transitions that all complete. Iterations of the receive loop are allowed
  also after it has left through \<^verbatim>\<open>break\<close>: the executions of the program are among
  those considered.
\<close>

datatype action =
    DoRequest "gomap option" bool
  | DoReceive received
  | DoEvents
  | DoSubscribe string string string eventHandler
  | DoUnsubscribe string string string
  | DoTakeDead

definition take_Dead :: "Connection \<Rightarrow> fault + Connection" where
  "take_Dead c =
     (case buf (Dead c) of
        [] \<Rightarrow> Inl (Blocked ''receive on empty channel'')
      | x # rest \<Rightarrow> Inr (c\<lparr>Dead := (Dead c)\<lparr>buf := rest\<rparr>\<rparr>))"

fun exec :: "config \<Rightarrow> Connection \<Rightarrow> action \<Rightarrow> fault + Connection" where
  "exec cfg c (DoRequest req send_ok) =
     (case Request cfg send_ok c req of Inl f \<Rightarrow> Inl f | Inr (c', _, _) \<Rightarrow> Inr c')"
| "exec cfg c (DoReceive rcv) =
     (case handleResponse_iter cfg c rcv of Inl f \<Rightarrow> Inl f | Inr (c', _) \<Rightarrow> Inr c')"
| "exec cfg c DoEvents =
     (case handleEvents_iter cfg c of Inl f \<Rightarrow> Inl f | Inr (c', _) \<Rightarrow> Inr c')"
| "exec cfg c (DoSubscribe event objectId handlerId handler) =
     Inr (Subscribe c event objectId handlerId handler)"
| "exec cfg c (DoUnsubscribe event objectId handlerId) =
     Inr (Unsubscribe c event objectId handlerId)"
| "exec cfg c DoTakeDead = take_Dead c"

fun run :: "config \<Rightarrow> Connection \<Rightarrow> action list \<Rightarrow> fault + Connection" where
  "run cfg c [] = Inr c"
| "run cfg c (a # as) =
     (case exec cfg c a of Inl f \<Rightarrow> Inl f | Inr c' \<Rightarrow> run cfg c' as)"

section \<open>Observations and invariants\<close>

text \<open>The correlation id an envelope handed to \<^verbatim>\<open>websocket.JSON.Send\<close> carries, and the
  ids of all envelopes handed over so far, oldest first.\<close>

definition envelope_id :: "gomap \<Rightarrow> int64" where
  "envelope_id m =
     (case assert_int64 (index_map (Some m) ''id'') of None \<Rightarrow> 0 | Some i \<Rightarrow> i)"

definition sent_ids :: "Connection \<Rightarrow> int64 list" where
  "sent_ids c = map envelope_id (ws_out c)"

text \<open>The id a \<^verbatim>\<open>Request\<close> on a dead connection copies into its response.\<close>

definition dead_id :: "gomap option \<Rightarrow> int64" where
  "dead_id req =
     (case req of
        None \<Rightarrow> 0
      | Some m \<Rightarrow> (case map_of m ''id'' of Some (IInt64 i) \<Rightarrow> i | _ \<Rightarrow> 0))"

text \<open>
  What holds of every connection that \<^verbatim>\<open>NewConnection\<close> returned and that was used
  through the transitions above:
  \<^item> the \<^verbatim>\<open>Dead\<close> channel has room for one value, is open, and is empty while the
    connection is alive; \<^verbatim>\<open>eChan\<close> is closed only on a dead connection;
  \<^item> every pending entry refers to a channel of its own that exists, is unbuffered, open
    and has carried nothing, and no id has two entries;
  \<^item> the counter is the number of envelopes handed to the websocket, the k-th envelope
    carries id k, and every pending id is one of them;
  \<^item> no handler id occurs twice under an event name and object id.
\<close>

definition wf_events :: "Connection \<Rightarrow> bool" where
  "wf_events c =
     list_all (\<lambda>(event, oh). list_all (\<lambda>(objectId, he). distinct (map fst he)) oh)
       (events c)"

definition wf :: "Connection \<Rightarrow> bool" where
  "wf c =
     (cap (Dead c) = 1 \<and> \<not> closed (Dead c) \<and> (\<not> IsDead c \<longrightarrow> buf (Dead c) = []) \<and>
      (closed (eChan c) \<longrightarrow> IsDead c) \<and>
      list_all (\<lambda>(i, ch). ch < length (heap c) \<and> heap c ! ch = make_chan 0) (clients c) \<and>
      distinct (map fst (clients c)) \<and>
      distinct (map snd (clients c)) \<and>
      clientId c = of_nat (length (ws_out c)) \<and>
      sent_ids c = map (\<lambda>k. of_nat (Suc k)) [0..<length (ws_out c)] \<and>
      list_all (\<lambda>(i, ch). i \<in> set (sent_ids c)) (clients c) \<and>
      wf_events c)"

section \<open>Example connections and frames\<close>

text \<open>A quiet configuration, a create request as the callers build it, and the
  connection as \<^verbatim>\<open>NewConnection\<close> returns it.\<close>

definition cfg0 :: config where
  "cfg0 = \<lparr>logLevel = 0, LogLevelDebug = 1, LogLevelSilly = 2\<rparr>"

definition req_create :: gomap where
  "req_create =
     [(''jsonrpc'', IString ''2.0''), (''method'', IString ''create''), (''params'', IMap [])]"

definition conn0 :: Connection where
  "conn0 =
     \<lparr>clientId = 0, clients = [], host = ''ws://kms:8888'', SessionId = [], events = [],
      eChan = \<lparr>cap = 1, buf = [], closed = False\<rparr>,
      Dead = \<lparr>cap = 1, buf = [], closed = False\<rparr>, IsDead = False,
      heap = [], ws_out = [], logs = [], invoked = []\<rparr>"

text \<open>After one request that was written: call 1 is pending on channel 0.\<close>

definition conn1 :: Connection where
  "conn1 =
     conn0\<lparr>clientId := 1, clients := [(1, 0)],
           heap := [\<lparr>cap = 0, buf = [], closed = False\<rparr>],
           ws_out := [req_create @ [(''id'', IInt64 1)]]\<rparr>"

text \<open>The same two connections after the receive loop has seen a read error.\<close>

definition conn0_dead :: Connection where
  "conn0_dead =
     conn0\<lparr>eChan := \<lparr>cap = 1, buf = [], closed = True\<rparr>,
           Dead := \<lparr>cap = 1, buf = [True], closed = False\<rparr>, IsDead := True,
           logs := [LErrorReceiving]\<rparr>"

definition conn1_dead :: Connection where
  "conn1_dead =
     conn1\<lparr>eChan := \<lparr>cap = 1, buf = [], closed = True\<rparr>,
           Dead := \<lparr>cap = 1, buf = [True], closed = False\<rparr>, IsDead := True,
           logs := [LErrorReceiving]\<rparr>"

text \<open>Frames, each with what \<^verbatim>\<open>json.Unmarshal\<close> makes of it: a key that names no field
  of the struct is skipped, a field without a key keeps its zero value. The callers of
  calls 1 are receiving; for the other frames no caller holds a channel.\<close>

definition no_Response :: Response where
  "no_Response = \<lparr>Jsonrpc = ''2.0'', Id = 0, Result = None, Error = None\<rparr>"

definition no_Event :: Event where
  "no_Event = \<lparr>Event.Jsonrpc = ''2.0'', Method = [], Params = None, Event.Error = None\<rparr>"

definition resp_result1 :: Response where
  "resp_result1 =
     \<lparr>Jsonrpc = ''2.0'', Id = 1,
      Result = Some [(''value'', IString ''abc''), (''sessionId'', IString ''s1'')],
      Error = None\<rparr>"

definition msg_result1 :: message where
  \<open>msg_result1 =
     \<lparr>raw_text = ''{"jsonrpc":"2.0","id":1,"result":{"value":"abc","sessionId":"s1"}}'',
      valid_json = True,
      Response_err = False, Response_struct = resp_result1,
      Event_err = False, Event_struct = no_Event, waiter_receives = True\<rparr>\<close>






definition event_no_value :: Event where
  "event_no_value =
     \<lparr>Event.Jsonrpc = ''2.0'', Method = ''onEvent'', Params = Some [], Event.Error = None\<rparr>"

definition msg_event_no_value :: message where
  \<open>msg_event_no_value =
     \<lparr>raw_text = ''{"jsonrpc":"2.0","method":"onEvent","params":{}}'',
      valid_json = True,
      Response_err = False, Response_struct = no_Response,
      Event_err = False, Event_struct = event_no_value, waiter_receives = False\<rparr>\<close>

definition event_boom :: Event where
  "event_boom =
     \<lparr>Event.Jsonrpc = ''2.0'', Method = ''onEvent'',
      Params = Some [(''value'',
                 IMap [(''type'', IString ''Error''), (''object'', IString ''obj1''),
                       (''data'', IMap [(''msg'', IString ''boom'')])])],
      Event.Error = None\<rparr>"

text \<open>Connections reached from \<open>conn1\<close> and \<open>conn0\<close>: call 1 answered by the frame
  \<open>msg_result1\<close>, and a callback (number 7) subscribed to the \<^verbatim>\<open>Error\<close> events of
  \<^verbatim>\<open>obj1\<close> under the handler id \<^verbatim>\<open>h1\<close>.\<close>

definition conn1_answered :: Connection where
  "conn1_answered =
     conn1\<lparr>SessionId := ''s1'', clients := [],
           heap := [\<lparr>cap = 0, buf = [resp_result1], closed = True\<rparr>]\<rparr>"

definition conn0_subscribed :: Connection where
  "conn0_subscribed = conn0\<lparr>events := [(''Error'', [(''obj1'', [(''h1'', 7)])])]\<rparr>"

text \<open>The subscribed connection with the event \<open>event_boom\<close> waiting in \<^verbatim>\<open>eChan\<close>.\<close>

definition conn0_boom :: Connection where
  "conn0_boom =
     conn0_subscribed\<lparr>eChan := \<lparr>cap = 1, buf = [event_boom], closed = False\<rparr>\<rparr>"

section \<open>Basic facts about the transitions\<close>

text \<open>What each transition returns and which fields it leaves alone; then the proof that
  every transition preserves the invariant \<open>wf\<close>, which holds of the connection
  \<^verbatim>\<open>NewConnection\<close> returns (\<open>wf_NewConnection\<close>, \<open>wf_exec\<close>, \<open>wf_run\<close>).\<close>

lemma logf_fields [simp]:
  "clientId (logf b l c) = clientId c"
  "clients (logf b l c) = clients c"
  "host (logf b l c) = host c"
  "SessionId (logf b l c) = SessionId c"
  "events (logf b l c) = events c"
  "eChan (logf b l c) = eChan c"
  "Dead (logf b l c) = Dead c"
  "IsDead (logf b l c) = IsDead c"
  "heap (logf b l c) = heap c"
  "ws_out (logf b l c) = ws_out c"
  "invoked (logf b l c) = invoked c"
  by (simp_all add: logf_def)

lemma chan_send_fresh [simp]:
  "chan_send b (make_chan (Suc n)) x = Inr \<lparr>cap = Suc n, buf = [x], closed = False\<rparr>"
  by (simp add: chan_send_def make_chan_def)

lemma chan_send_room:
  "\<not> closed ch \<Longrightarrow> length (buf ch) < cap ch \<Longrightarrow>
   chan_send b ch x = Inr (ch\<lparr>buf := buf ch @ [x]\<rparr>)"
  by (auto simp add: chan_send_def)

lemma Request_when_dead:
  "IsDead c \<Longrightarrow>
   Request cfg send_ok c req =
     Inr (c\<lparr>heap := heap c @ [\<lparr>cap = 1, buf = [(errresp 0)\<lparr>Id := dead_id req\<rparr>], closed = False\<rparr>]\<rparr>,
          req, Some (length (heap c)))"
  apply (simp add: Request_def dead_id_def Let_def split: option.splits iface.splits)
  apply (auto simp: errresp_def)
  done

lemma envelope_id_stamped [simp]:
  "envelope_id (AList.update ''id'' (IInt64 i) m) = i"
  "envelope_id (AList.update ''sessionId'' v (AList.update ''id'' (IInt64 i) m)) = i"
  by (simp_all add: envelope_id_def index_map_def update_conv')

lemma Request_live_sent:
  assumes "\<not> IsDead c"
  shows "\<exists>c' e. Request cfg True c (Some m) = Inr (c', Some e, Some (length (heap c))) \<and>
           e = (if SessionId c \<noteq> []
                then AList.update ''sessionId'' (IString (SessionId c))
                       (AList.update ''id'' (IInt64 (clientId c + 1)) m)
                else AList.update ''id'' (IInt64 (clientId c + 1)) m) \<and>
           clientId c' = clientId c + 1 \<and>
           clients c' = AList.update (clientId c + 1) (length (heap c)) (clients c) \<and>
           heap c' = heap c @ [make_chan 0] \<and>
           ws_out c' = ws_out c @ [e] \<and>
           SessionId c' = SessionId c \<and> IsDead c' = IsDead c \<and> Dead c' = Dead c \<and>
           eChan c' = eChan c \<and> events c' = events c \<and> invoked c' = invoked c \<and> host c' = host c"
  using assms by (simp add: Request_def Let_def update_conv')

lemma Request_live_failed:
  assumes "\<not> IsDead c" and "\<not> closed (Dead c)" and "length (buf (Dead c)) < cap (Dead c)"
  shows "\<exists>c' e. Request cfg False c (Some m) = Inr (c', Some e, Some (Suc (length (heap c)))) \<and>
           e = (if SessionId c \<noteq> []
                then AList.update ''sessionId'' (IString (SessionId c))
                       (AList.update ''id'' (IInt64 (clientId c + 1)) m)
                else AList.update ''id'' (IInt64 (clientId c + 1)) m) \<and>
           clientId c' = clientId c + 1 \<and>
           clients c' = AList.delete (clientId c + 1) (clients c) \<and>
           heap c' = heap c @ [make_chan 0, \<lparr>cap = 1, buf = [errresp (clientId c + 1)], closed = False\<rparr>] \<and>
           ws_out c' = ws_out c @ [e] \<and>
           SessionId c' = SessionId c \<and> IsDead c' \<and> Dead c' = (Dead c)\<lparr>buf := buf (Dead c) @ [True]\<rparr> \<and>
           eChan c' = eChan c \<and> events c' = events c \<and> invoked c' = invoked c \<and> host c' = host c"
  using assms by (auto simp add: Request_def Let_def update_conv' chan_send_room index_map_def delete_update_same)


lemma saveSessionId_fields [simp]:
  "clientId (saveSessionId cfg r c) = clientId c"
  "clients (saveSessionId cfg r c) = clients c"
  "host (saveSessionId cfg r c) = host c"
  "events (saveSessionId cfg r c) = events c"
  "eChan (saveSessionId cfg r c) = eChan c"
  "Dead (saveSessionId cfg r c) = Dead c"
  "IsDead (saveSessionId cfg r c) = IsDead c"
  "heap (saveSessionId cfg r c) = heap c"
  "ws_out (saveSessionId cfg r c) = ws_out c"
  "invoked (saveSessionId cfg r c) = invoked c"
  by (simp_all add: saveSessionId_def split: option.splits)

lemma saveSessionId_SessionId:
  "SessionId (saveSessionId cfg r c) =
     (case assert_string (index_map (Result r) ''sessionId'') of
        None \<Rightarrow> SessionId c
      | Some s \<Rightarrow> if s \<noteq> [] \<and> SessionId c \<noteq> s then s else SessionId c)"
  by (simp add: saveSessionId_def split: option.splits)




lemma sendToClient_frame:
  assumes "sendToClient cfg b r c = Inr c'"
  shows "clientId c' = clientId c \<and> SessionId c' = SessionId c \<and> IsDead c' = IsDead c \<and>
         Dead c' = Dead c \<and> eChan c' = eChan c \<and> events c' = events c \<and>
         ws_out c' = ws_out c \<and> invoked c' = invoked c \<and> host c' = host c"
  using assms
  by (auto simp add: sendToClient_def Let_def split: option.splits if_splits sum.splits)

lemma handleResponse_iter_ReceiveError:
  assumes "handleResponse_iter cfg c ReceiveError = Inr (c', b)"
  shows "\<not> b \<and> IsDead c' \<and> clients c' = clients c \<and> heap c' = heap c \<and>
         clientId c' = clientId c \<and> SessionId c' = SessionId c \<and> events c' = events c \<and>
         ws_out c' = ws_out c \<and> invoked c' = invoked c \<and> host c' = host c \<and>
         chan_send False (Dead c) True = Inr (Dead c') \<and> chan_close (eChan c) = Inr (eChan c')"
  using assms
  by (auto simp add: handleResponse_iter_def Let_def split: sum.splits)

lemma handleResponse_iter_ReceiveError_total:
  assumes "\<not> closed (Dead c)" and "length (buf (Dead c)) < cap (Dead c)"
    and "\<not> closed (eChan c)"
  shows "\<exists>c'. handleResponse_iter cfg c ReceiveError = Inr (c', False)"
  using assms
  by (simp add: handleResponse_iter_def Let_def chan_send_room chan_close_def)

lemma handleResponse_iter_Received_frame:
  assumes "handleResponse_iter cfg c (Received m) = Inr (c', b)"
  shows "b \<and> IsDead c' = IsDead c \<and> clientId c' = clientId c \<and> events c' = events c \<and>
         ws_out c' = ws_out c \<and> invoked c' = invoked c \<and> host c' = host c \<and> Dead c' = Dead c \<and>
         closed (eChan c') = closed (eChan c)"
  using assms
  by (auto simp add: handleResponse_iter_def Let_def chan_send_def
      split: sum.splits if_splits dest!: sendToClient_frame)


lemma call_handler_fields [simp]:
  "clientId (call_handler cfg t ob d nh c) = clientId c"
  "clients (call_handler cfg t ob d nh c) = clients c"
  "host (call_handler cfg t ob d nh c) = host c"
  "SessionId (call_handler cfg t ob d nh c) = SessionId c"
  "events (call_handler cfg t ob d nh c) = events c"
  "eChan (call_handler cfg t ob d nh c) = eChan c"
  "Dead (call_handler cfg t ob d nh c) = Dead c"
  "IsDead (call_handler cfg t ob d nh c) = IsDead c"
  "heap (call_handler cfg t ob d nh c) = heap c"
  "ws_out (call_handler cfg t ob d nh c) = ws_out c"
  "invoked (call_handler cfg t ob d nh c) = invoked c @ [(snd nh, d)]"
  by (simp_all add: call_handler_def Let_def)

lemma fold_preserves:
  assumes "\<And>x s. g (f x s) = g s"
  shows "g (fold f xs s) = g s"
  by (induction xs arbitrary: s) (simp_all add: assms)

lemma fold_call_handler_fields [simp]:
  "clientId (fold (call_handler cfg t ob d) he c) = clientId c"
  "clients (fold (call_handler cfg t ob d) he c) = clients c"
  "host (fold (call_handler cfg t ob d) he c) = host c"
  "SessionId (fold (call_handler cfg t ob d) he c) = SessionId c"
  "events (fold (call_handler cfg t ob d) he c) = events c"
  "eChan (fold (call_handler cfg t ob d) he c) = eChan c"
  "Dead (fold (call_handler cfg t ob d) he c) = Dead c"
  "IsDead (fold (call_handler cfg t ob d) he c) = IsDead c"
  "heap (fold (call_handler cfg t ob d) he c) = heap c"
  "ws_out (fold (call_handler cfg t ob d) he c) = ws_out c"
  by (rule fold_preserves, simp)+

lemma fold_call_handler_invoked [simp]:
  "invoked (fold (call_handler cfg t ob d) he c) = invoked c @ map (\<lambda>nh. (snd nh, d)) he"
  by (induction he arbitrary: c) simp_all

lemma handleEvents_body_frame:
  assumes "handleEvents_body cfg c ev = Inr c'"
  shows "clientId c' = clientId c \<and> clients c' = clients c \<and> host c' = host c \<and>
         SessionId c' = SessionId c \<and> events c' = events c \<and> eChan c' = eChan c \<and>
         Dead c' = Dead c \<and> IsDead c' = IsDead c \<and> heap c' = heap c \<and> ws_out c' = ws_out c"
  using assms
  by (auto simp add: handleEvents_body_def Let_def split: option.splits)

lemma handleEvents_body_wellformed:
  assumes "Params ev = Some p" and "map_of p ''value'' = Some (IMap v)"
    and "map_of v ''type'' = Some (IString t)" and "map_of v ''object'' = Some (IString ob)"
    and "map_of v ''data'' = Some (IMap d)"
  shows "\<exists>c'. handleEvents_body cfg c ev = Inr c' \<and>
           invoked c' = invoked c @ map (\<lambda>nh. (snd nh, d)) (handlers_of c t ob)"
  using assms
  by (simp add: handleEvents_body_def handlers_of_def index_map_def Let_def split: option.splits)

lemma handleEvents_iter_frame:
  assumes "handleEvents_iter cfg c = Inr (c', b)"
  shows "clientId c' = clientId c \<and> clients c' = clients c \<and> host c' = host c \<and>
         SessionId c' = SessionId c \<and> events c' = events c \<and>
         closed (eChan c') = closed (eChan c) \<and>
         Dead c' = Dead c \<and> IsDead c' = IsDead c \<and> heap c' = heap c \<and> ws_out c' = ws_out c"
  using assms
  by (auto simp add: handleEvents_iter_def split: list.splits if_splits sum.splits
      dest!: handleEvents_body_frame)

lemma mset_handlers:
  assumes "distinct (map fst al)"
  shows "mset (map (\<lambda>nh. (snd nh, d)) al) =
         image_mset (\<lambda>H. (the (map_of al H), d)) (mset_set (dom (map_of al)))"
  using assms
proof (induction al)
  case Nil
  then show ?case by simp
next
  case (Cons a al)
  obtain k v where a: "a = (k, v)" by (cases a)
  define g where "g = (\<lambda>H. (the (map_of (a # al) H), d))"
  from Cons.prems a have k: "k \<notin> dom (map_of al)" and dis: "distinct (map fst al)"
    by (auto simp: dom_map_of_conv_image_fst)
  have fin: "finite (dom (map_of al))" by (simp add: finite_dom_map_of)
  have dom: "dom (map_of (a # al)) = insert k (dom (map_of al))"
    by (auto simp: a)
  have gk: "g k = (v, d)" by (simp add: g_def a)
  have same: "image_mset g (mset_set (dom (map_of al))) =
              image_mset (\<lambda>H. (the (map_of al H), d)) (mset_set (dom (map_of al)))"
    using k fin by (intro image_mset_cong) (auto simp: a g_def)
  have "mset (map (\<lambda>nh. (snd nh, d)) (a # al)) =
        add_mset (v, d) (mset (map (\<lambda>nh. (snd nh, d)) al))"
    by (simp add: a)
  also have "\<dots> = add_mset (g k) (image_mset g (mset_set (dom (map_of al))))"
    using Cons.IH [OF dis] by (simp only: gk same)
  also have "\<dots> = image_mset g (mset_set (insert k (dom (map_of al))))"
    using k fin by simp
  finally show ?case
    by (simp only: dom g_def)
qed

lemma subscriber_Subscribe:
  "subscriber (Subscribe c t ob H h) t' ob' H' =
     (if t' = t \<and> ob' = ob \<and> H' = H then Some h else subscriber c t' ob' H')"
  by (simp add: subscriber_def Subscribe_def Let_def update_conv' split: option.splits)

lemma subscriber_Unsubscribe:
  "subscriber (Unsubscribe c t ob H) t' ob' H' =
     (if t' = t \<and> ob' = ob \<and> H' = H then None else subscriber c t' ob' H')"
  by (auto simp add: subscriber_def Unsubscribe_def Let_def update_conv' delete_conv' split: option.splits)

lemma subscriber_handlers_of:
  "subscriber c t ob H = map_of (handlers_of c t ob) H"
  by (simp add: subscriber_def handlers_of_def split: option.splits)


lemma list_all_update:
  "P (k, v) \<Longrightarrow> list_all P al \<Longrightarrow> list_all P (AList.update k v al)"
  by (induction al) auto

lemma list_all_map_of:
  "list_all P al \<Longrightarrow> map_of al k = Some v \<Longrightarrow> P (k, v)"
  by (auto simp: list_all_iff dest: map_of_SomeD)






lemma wf_events_Subscribe:
  assumes "wf_events c"
  shows "wf_events (Subscribe c t ob H h)"
proof -
  let ?R = "\<lambda>(objectId, he). distinct (map fst (he :: (string \<times> eventHandler) list))"
  let ?Q = "\<lambda>(event :: string, oh). list_all ?R oh"
  define oh where "oh = (case map_of (events c) t of None \<Rightarrow> [] | Some oh \<Rightarrow> oh)"
  define he where "he = (case map_of oh ob of None \<Rightarrow> [] | Some he \<Rightarrow> he)"
  have all: "list_all ?Q (events c)" using assms by (simp add: wf_events_def)
  have oh: "list_all ?R oh"
    using list_all_map_of [OF all, of t] by (auto simp: oh_def split: option.splits)
  have he: "distinct (map fst he)"
    using list_all_map_of [OF oh, of ob] by (auto simp: he_def split: option.splits)
  have "list_all ?R (AList.update ob (AList.update H h he) oh)"
    using oh he by (intro list_all_update) (simp_all add: distinct_update)
  then have "list_all ?Q (AList.update t (AList.update ob (AList.update H h he) oh) (events c))"
    using all by (intro list_all_update) simp_all
  then show ?thesis
    by (simp add: wf_events_def Subscribe_def Let_def oh_def he_def)
qed

lemma wf_events_Unsubscribe:
  assumes "wf_events c"
  shows "wf_events (Unsubscribe c t ob H)"
proof (cases "map_of (events c) t")
  case None
  then show ?thesis using assms by (simp add: Unsubscribe_def)
next
  case (Some oh)
  let ?R = "\<lambda>(objectId, he). distinct (map fst (he :: (string \<times> eventHandler) list))"
  let ?Q = "\<lambda>(event :: string, oh). list_all ?R oh"
  have all: "list_all ?Q (events c)" using assms by (simp add: wf_events_def)
  have oh: "list_all ?R oh"
    using list_all_map_of [OF all Some] by simp
  show ?thesis
  proof (cases "map_of oh ob")
    case None
    then show ?thesis using assms Some by (simp add: Unsubscribe_def)
  next
    case (Some he)
    have he: "distinct (map fst he)"
      using list_all_map_of [OF oh Some] by simp
    have "list_all ?R (AList.update ob (AList.delete H he) oh)"
      using oh he by (intro list_all_update) (simp_all add: distinct_delete)
    then have "list_all ?Q (AList.update t (AList.update ob (AList.delete H he) oh) (events c))"
      using all by (intro list_all_update) simp_all
    then show ?thesis
      using Some \<open>map_of (events c) t = Some oh\<close>
      by (simp add: wf_events_def Unsubscribe_def)
  qed
qed

lemma wf_events_handlers_of:
  assumes "wf_events c"
  shows "distinct (map fst (handlers_of c t ob))"
proof -
  let ?R = "\<lambda>(objectId, he). distinct (map fst (he :: (string \<times> eventHandler) list))"
  let ?Q = "\<lambda>(event :: string, oh). list_all ?R oh"
  have all: "list_all ?Q (events c)" using assms by (simp add: wf_events_def)
  show ?thesis
  proof (cases "map_of (events c) t")
    case None
    then show ?thesis by (simp add: handlers_of_def)
  next
    case (Some oh)
    have oh: "list_all ?R oh" using list_all_map_of [OF all Some] by simp
    show ?thesis
      using list_all_map_of [OF oh, of ob] Some
      by (auto simp: handlers_of_def split: option.splits)
  qed
qed




lemma pending_fresh:
  "list_all (\<lambda>(i, ch). ch < length h \<and> h ! ch = x) al \<Longrightarrow> length h + k \<notin> snd ` set al"
  by (auto simp: list_all_iff)


lemma wfD:
  assumes "wf c"
  shows "cap (Dead c) = 1" and "\<not> closed (Dead c)" and "\<not> IsDead c \<Longrightarrow> buf (Dead c) = []"
    and "closed (eChan c) \<Longrightarrow> IsDead c"
    and "list_all (\<lambda>(i, ch). ch < length (heap c) \<and> heap c ! ch = make_chan 0) (clients c)"
    and "distinct (map fst (clients c))" and "distinct (map snd (clients c))"
    and "clientId c = of_nat (length (ws_out c))"
    and "sent_ids c = map (\<lambda>k. of_nat (Suc k)) [0..<length (ws_out c)]"
    and "list_all (\<lambda>(i, ch). i \<in> set (sent_ids c)) (clients c)"
    and "wf_events c"
  using assms unfolding wf_def by blast+










lemma handleResponse_iter_response:
  assumes "valid_json m" and "Response_unmarshal (Response_err m) (Response_struct m)"
  shows "handleResponse_iter cfg c (Received m) =
           (case sendToClient cfg (waiter_receives m) (Response_struct m)
                   (logf (0 < logLevel cfg) (LResponse (Response_struct m))
                     (saveSessionId cfg (Response_struct m)
                       (logf (LogLevelDebug cfg < logLevel cfg) (LRaw (raw_text m))
                         (logf (silly cfg) LReceivedMessage
                           (logf (silly cfg) LStartReceive c))))) of
              Inl f \<Rightarrow> Inl f
            | Inr c2 \<Rightarrow> Inr (c2, True))"
  using assms by (simp add: handleResponse_iter_def Let_def)

lemma handleResponse_iter_not_response:
  assumes "\<not> (valid_json m \<and> Response_unmarshal (Response_err m) (Response_struct m))"
    and "handleResponse_iter cfg c (Received m) = Inr (c', b)"
  shows "clients c' = clients c \<and> heap c' = heap c \<and> SessionId c' = SessionId c"
  using assms
  by (auto simp add: handleResponse_iter_def Let_def split: sum.splits if_splits)












lemma wf_examples:
  "wf conn0" "wf conn1" "wf conn0_dead" "wf conn1_dead"
  by (simp_all add: wf_def wf_events_def sent_ids_def envelope_id_def index_map_def
      conn0_def conn1_def conn0_dead_def conn1_dead_def req_create_def make_chan_def)

section \<open>Requests on a dead connection\<close>

text \<open>
  C2. A \<^verbatim>\<open>Request\<close> on a connection already marked dead returns at once, whatever the
  request: nothing is handed to the websocket, the pending set is as before, the caller's
  map is untouched, and the channel returned is a new one holding exactly one response,
  with no result and the error of code -1 and message "No connection to Kurento server".
\<close>

theorem Request_on_dead_connection:
  assumes "IsDead c"
  shows "\<exists>c' r. Request cfg send_ok c req = Inr (c', req, Some (length (heap c))) \<and>
           ws_out c' = ws_out c \<and> clients c' = clients c \<and>
           heap c' = heap c @ [\<lparr>cap = 1, buf = [r], closed = False\<rparr>] \<and>
           Result r = None \<and>
           Response.Error r =
             Some \<lparr>Code = - 1, Message = ''No connection to Kurento server'', Data = INil\<rparr>"
  by (simp add: Request_when_dead [OF assms] errresp_def ConnectionLost_def)

theorem Request_on_dead_connection_witness:
  "IsDead conn1_dead \<and>
   (\<exists>c' r. Request cfg0 True conn1_dead (Some req_create) = Inr (c', Some req_create, Some 1) \<and>
           ws_out c' = ws_out conn1_dead \<and> clients c' = [(1, 0)] \<and>
           heap c' = heap conn1_dead @ [\<lparr>cap = 1, buf = [r], closed = False\<rparr>] \<and>
           Result r = None \<and>
           Response.Error r =
             Some \<lparr>Code = - 1, Message = ''No connection to Kurento server'', Data = INil\<rparr>)"
  using Request_on_dead_connection [of conn1_dead cfg0 True "Some req_create"]
  by (simp add: conn1_dead_def conn1_def conn0_def)

lemma pending_id_not_zero:
  assumes "wf c" and "length (ws_out c) < 2 ^ 64"
  shows "map_of (clients c) 0 = None"
proof (rule ccontr)
  assume "map_of (clients c) 0 \<noteq> None"
  then obtain ch where "(0, ch) \<in> set (clients c)"
    by (auto dest: map_of_SomeD)
  with wfD(10) [OF assms(1)] have "0 \<in> set (sent_ids c)"
    by (auto simp: list_all_iff)
  then obtain k where k: "k < length (ws_out c)" "(of_nat (Suc k) :: int64) = 0"
    unfolding wfD(9) [OF assms(1)] by auto
  from k(2) have "2 ^ 64 dvd Suc k"
    by (simp only: word_of_nat_eq_0_iff) simp
  then have "2 ^ 64 \<le> Suc k" by (rule dvd_imp_le) simp
  with k(1) assms(2) show False by simp
qed


text \<open>
  C10. A \<^verbatim>\<open>Request\<close> on a dead connection leaves the id counter where it is and hands no
  envelope to the websocket, so no id is assigned. Its response carries the \<^verbatim>\<open>int64\<close>
  stored under \<^verbatim>\<open>"id"\<close> in the caller's map, and 0 where the map is nil, has no such key
  or holds a value of another type there. On a connection that satisfies the invariant
  (as every connection reached from \<^verbatim>\<open>NewConnection\<close> does, see \<open>wf_NewConnection\<close> and
  \<open>wf_run\<close>) and has handed fewer than \<open>2 ^ 64\<close> envelopes to the websocket, no pending
  call is registered under 0.
\<close>

theorem dead_Request_assigns_no_id:
  assumes "IsDead c"
  shows "\<exists>c' r. Request cfg send_ok c req = Inr (c', req, Some (length (heap c))) \<and>
           clientId c' = clientId c \<and> sent_ids c' = sent_ids c \<and>
           heap c' ! length (heap c) = \<lparr>cap = 1, buf = [r], closed = False\<rparr> \<and>
           Id r = dead_id req \<and>
           (wf c \<and> length (ws_out c) < 2 ^ 64 \<longrightarrow> map_of (clients c') 0 = None)"
  using pending_id_not_zero [of c]
  by (auto simp add: Request_when_dead [OF assms] errresp_def sent_ids_def dead_id_def)

theorem dead_Request_assigns_no_id_witness:
  "IsDead conn1_dead \<and> wf conn1_dead \<and> length (ws_out conn1_dead) < 2 ^ 64 \<and>
   map_of req_create ''id'' = None \<and>
   (\<exists>c' r. Request cfg0 True conn1_dead (Some req_create) = Inr (c', Some req_create, Some 1) \<and>
           clientId c' = 1 \<and> sent_ids c' = [1] \<and>
           heap c' ! 1 = \<lparr>cap = 1, buf = [r], closed = False\<rparr> \<and>
           Id r = 0 \<and> map_of (clients c') 0 = None)"
  using dead_Request_assigns_no_id [of conn1_dead cfg0 True "Some req_create"] wf_examples(4)
  by (simp add: conn1_dead_def conn1_def conn0_def req_create_def sent_ids_def envelope_id_def
      index_map_def dead_id_def)

section \<open>A write that fails\<close>

text \<open>
  C9. On a live connection, a \<^verbatim>\<open>Request\<close> whose write fails returns with the connection
  marked dead and with no pending entry under the id it had just assigned. The channel it
  returns is a new one, not registered in the pending set (nor is the channel that had
  been registered for the id), and holds exactly one response: the assigned id, no result,
  and the error of code -1.
\<close>

theorem failed_write_resolves_own_call:
  assumes "wf c" and "\<not> IsDead c"
  shows "\<exists>c' e r. Request cfg False c (Some m) = Inr (c', Some e, Some (Suc (length (heap c)))) \<and>
           map_of e ''id'' = Some (IInt64 (clientId c + 1)) \<and>
           IsDead c' \<and>
           map_of (clients c') (clientId c + 1) = None \<and>
           length (heap c) \<notin> snd ` set (clients c') \<and>
           Suc (length (heap c)) \<notin> snd ` set (clients c') \<and>
           heap c' = heap c @ [make_chan 0, \<lparr>cap = 1, buf = [r], closed = False\<rparr>] \<and>
           Id r = clientId c + 1 \<and> Result r = None \<and>
           Response.Error r =
             Some \<lparr>Code = - 1, Message = ''No connection to Kurento server'', Data = INil\<rparr>"
proof -
  note w = wfD [OF assms(1)]
  have room: "length (buf (Dead c)) < cap (Dead c)"
    using w(1) w(3) [OF assms(2)] by simp
  from Request_live_failed [OF assms(2) w(2) room, of cfg m]
  obtain c' e where r: "Request cfg False c (Some m) = Inr (c', Some e, Some (Suc (length (heap c))))"
    and e: "e = (if SessionId c \<noteq> []
                then AList.update ''sessionId'' (IString (SessionId c))
                       (AList.update ''id'' (IInt64 (clientId c + 1)) m)
                else AList.update ''id'' (IInt64 (clientId c + 1)) m)"
    and f: "clients c' = AList.delete (clientId c + 1) (clients c)"
      "heap c' = heap c @ [make_chan 0, \<lparr>cap = 1, buf = [errresp (clientId c + 1)], closed = False\<rparr>]"
      "IsDead c'"
    by blast
  have id: "map_of e ''id'' = Some (IInt64 (clientId c + 1))"
    by (simp add: e update_conv')
  have gone: "map_of (clients c') (clientId c + 1) = None"
    by (simp add: f(1) delete_conv')
  have "snd ` set (clients c') \<subseteq> snd ` set (clients c)"
    by (auto simp: f(1) AList.delete_eq)
  with pending_fresh [OF w(5), of 0] pending_fresh [OF w(5), of 1]
  have fresh: "length (heap c) \<notin> snd ` set (clients c')"
    "Suc (length (heap c)) \<notin> snd ` set (clients c')"
    by auto
  show ?thesis
    using r id gone fresh f(2,3)
    by (intro exI [of _ c'] exI [of _ e] exI [of _ "errresp (clientId c + 1)"])
       (simp add: errresp_def ConnectionLost_def)
qed

theorem failed_write_resolves_own_call_witness:
  "wf conn1 \<and> \<not> IsDead conn1 \<and>
   (\<exists>c' e r. Request cfg0 False conn1 (Some req_create) = Inr (c', Some e, Some 2) \<and>
           map_of e ''id'' = Some (IInt64 2) \<and>
           IsDead c' \<and>
           map_of (clients c') 2 = None \<and>
           1 \<notin> snd ` set (clients c') \<and>
           2 \<notin> snd ` set (clients c') \<and>
           heap c' = heap conn1 @ [make_chan 0, \<lparr>cap = 1, buf = [r], closed = False\<rparr>] \<and>
           Id r = 2 \<and> Result r = None \<and>
           Response.Error r =
             Some \<lparr>Code = - 1, Message = ''No connection to Kurento server'', Data = INil\<rparr>)"
  using failed_write_resolves_own_call [of conn1 cfg0 req_create] wf_examples(2)
  by (simp add: conn1_def conn0_def numeral_2_eq_2)

section \<open>Calls that are pending when the connection dies\<close>

text \<open>
  C1, as stated, fails: call 1 is pending on channel 0 when the receive loop sees a read
  error; afterwards the connection is dead, call 1 is still registered and its channel
  has carried nothing.
\<close>

theorem pending_call_outlives_connection:
  "run cfg0 conn0 [DoRequest (Some req_create) True] = Inr conn1 \<and>
   handleResponse_iter cfg0 conn1 ReceiveError = Inr (conn1_dead, False) \<and>
   IsDead conn1_dead \<and> map_of (clients conn1_dead) 1 = Some 0 \<and>
   heap conn1_dead ! 0 = \<lparr>cap = 0, buf = [], closed = False\<rparr>"
  by (simp add: Request_def handleResponse_iter_def Let_def cfg0_def conn0_def conn1_def
      conn1_dead_def req_create_def logf_def silly_def make_chan_def chan_send_def chan_close_def)

text \<open>
  C1, amended. When a live connection dies, no call that was already pending is resolved.
  A read error in the receive loop marks the connection dead and leaves the pending set
  and every response channel as they were. A failed write marks it dead, removes only the
  entry of the id the failing \<^verbatim>\<open>Request\<close> had assigned, leaves every channel that
  existed before untouched, and puts the one ConnectionLost response on the new channel it
  returns.
\<close>

theorem death_resolves_no_pending_call:
  assumes "wf c" and "\<not> IsDead c"
  shows "(\<exists>c'. handleResponse_iter cfg c ReceiveError = Inr (c', False) \<and> IsDead c' \<and>
              clients c' = clients c \<and> heap c' = heap c) \<and>
         (\<exists>c' e. Request cfg False c (Some m) = Inr (c', Some e, Some (Suc (length (heap c)))) \<and>
              IsDead c' \<and> clients c' = AList.delete (clientId c + 1) (clients c) \<and>
              take (length (heap c)) (heap c') = heap c \<and>
              heap c' ! Suc (length (heap c)) =
                \<lparr>cap = 1, buf = [errresp (clientId c + 1)], closed = False\<rparr>)"
proof -
  note w = wfD [OF assms(1)]
  have room: "length (buf (Dead c)) < cap (Dead c)"
    using w(1) w(3) [OF assms(2)] by simp
  have open_e: "\<not> closed (eChan c)" using w(4) assms(2) by auto
  from handleResponse_iter_ReceiveError_total [OF w(2) room open_e, of cfg]
  obtain c1 where 1: "handleResponse_iter cfg c ReceiveError = Inr (c1, False)" by blast
  from handleResponse_iter_ReceiveError [OF 1]
  have a: "\<exists>c'. handleResponse_iter cfg c ReceiveError = Inr (c', False) \<and> IsDead c' \<and>
              clients c' = clients c \<and> heap c' = heap c"
    using 1 by auto
  from Request_live_failed [OF assms(2) w(2) room, of cfg m]
  have b: "\<exists>c' e. Request cfg False c (Some m) = Inr (c', Some e, Some (Suc (length (heap c)))) \<and>
              IsDead c' \<and> clients c' = AList.delete (clientId c + 1) (clients c) \<and>
              take (length (heap c)) (heap c') = heap c \<and>
              heap c' ! Suc (length (heap c)) =
                \<lparr>cap = 1, buf = [errresp (clientId c + 1)], closed = False\<rparr>"
    by (auto simp: nth_append)
  from a b show ?thesis by blast
qed

theorem death_resolves_no_pending_call_witness:
  "wf conn1 \<and> \<not> IsDead conn1 \<and>
   (\<exists>c'. handleResponse_iter cfg0 conn1 ReceiveError = Inr (c', False) \<and> IsDead c' \<and>
              clients c' = [(1, 0)] \<and> heap c' = [\<lparr>cap = 0, buf = [], closed = False\<rparr>]) \<and>
   (\<exists>c' e. Request cfg0 False conn1 (Some req_create) = Inr (c', Some e, Some 2) \<and>
              IsDead c' \<and> clients c' = [(1, 0)] \<and>
              take 1 (heap c') = [\<lparr>cap = 0, buf = [], closed = False\<rparr>] \<and>
              heap c' ! 2 = \<lparr>cap = 1, buf = [errresp 2], closed = False\<rparr>)"
  using death_resolves_no_pending_call [of conn1 cfg0 req_create] wf_examples(2)
  by (simp add: conn1_def conn0_def numeral_2_eq_2)


section \<open>Responses and their waiters\<close>

lemma logf_forget_logs [simp]:
  "(logf b l c)\<lparr>logs := x\<rparr> = c\<lparr>logs := x\<rparr>"
  by (simp add: logf_def)

lemma saveSessionId_forget [simp]:
  "(saveSessionId cfg r c)\<lparr>logs := x, SessionId := s\<rparr> = c\<lparr>logs := x, SessionId := s\<rparr>"
  "(saveSessionId cfg r c)\<lparr>SessionId := s, logs := x\<rparr> = c\<lparr>logs := x, SessionId := s\<rparr>"
  by (simp_all add: saveSessionId_def logf_def split: option.splits)





lemma index_map_IString:
  "assert_string (index_map m k) = Some s \<longleftrightarrow>
     (\<exists>al. m = Some al \<and> map_of al k = Some (IString s))"
  by (cases "index_map m k") (auto simp: index_map_def split: option.splits)

lemma handleResponse_iter_SessionId:
  assumes "valid_json m" and "Response_unmarshal (Response_err m) (Response_struct m)"
    and "handleResponse_iter cfg c (Received m) = Inr (c', b)"
  shows "SessionId c' =
           (case assert_string (index_map (Result (Response_struct m)) ''sessionId'') of
              None \<Rightarrow> SessionId c
            | Some s \<Rightarrow> if s \<noteq> [] \<and> SessionId c \<noteq> s then s else SessionId c)"
  using assms(3)
  by (auto simp add: handleResponse_iter_response [OF assms(1,2)] saveSessionId_SessionId
      split: sum.splits option.splits dest!: sendToClient_frame)





section \<open>The classifier\<close>




section \<open>Frames that are neither a response nor a well-formed event\<close>

text \<open>
  C6 holds for the frames the classifier rejects and for text that is not JSON: they are
  logged and dropped. It fails for a frame with \<^verbatim>\<open>"method":"onEvent"\<close> whose \<^verbatim>\<open>params\<close> has
  no \<^verbatim>\<open>value\<close> object: the classifier takes it for an event, the receive loop hands it to
  the event loop, and the first type assertion of \<^verbatim>\<open>handleEvents\<close> panics on it.
\<close>

theorem malformed_onEvent_panics:
  "valid_json msg_event_no_value \<and>
   Id (Response_struct msg_event_no_value) = 0 \<and>
   Event_unmarshal (Event_err msg_event_no_value) (Event_struct msg_event_no_value) \<and>
   handleResponse_iter cfg0 conn0 (Received msg_event_no_value) =
     Inr (conn0\<lparr>eChan := \<lparr>cap = 1, buf = [event_no_value], closed = False\<rparr>\<rparr>, True) \<and>
   handleEvents_iter cfg0 (conn0\<lparr>eChan := \<lparr>cap = 1, buf = [event_no_value], closed = False\<rparr>\<rparr>) =
     Inl (Panic ''interface conversion'')"
  by (simp add: handleResponse_iter_def handleEvents_iter_def handleEvents_body_def Let_def
      Response_unmarshal_def Event_unmarshal_def index_map_def logf_def silly_def chan_send_def
      cfg0_def conn0_def msg_event_no_value_def no_Response_def event_no_value_def)

lemma unrecognized_frame_is_dropped:
  assumes "valid_json m \<longrightarrow>
             \<not> Response_unmarshal (Response_err m) (Response_struct m) \<and>
             \<not> Event_unmarshal (Event_err m) (Event_struct m)"
  shows "\<exists>c'. handleResponse_iter cfg c (Received m) = Inr (c', True) \<and>
           c'\<lparr>logs := logs c\<rparr> = c \<and>
           last (logs c') = (if valid_json m then LUnsupported (raw_text m) else LInvalidJSON)"
  using assms
  by (auto simp add: handleResponse_iter_def Let_def logf_def)

lemma malformed_event_panics:
  assumes "assert_map (index_map (Params ev) ''value'') = None"
  shows "handleEvents_body cfg c ev = Inl (Panic ''interface conversion'')"
  using assms by (simp add: handleEvents_body_def)


section \<open>Correlation ids\<close>







section \<open>The session token\<close>

lemma Request_SessionId:
  assumes "Request cfg ok c req = Inr (c', req', ch)"
  shows "SessionId c' = SessionId c"
  using assms
  by (auto simp add: Request_def Let_def split: if_splits option.splits sum.splits)

lemma exec_SessionId_changed:
  assumes "exec cfg c a = Inr c'" and "SessionId c' \<noteq> SessionId c"
  shows "\<exists>m al. a = DoReceive (Received m) \<and> valid_json m \<and>
           Response_unmarshal (Response_err m) (Response_struct m) \<and>
           Result (Response_struct m) = Some al \<and>
           map_of al ''sessionId'' = Some (IString (SessionId c')) \<and> SessionId c' \<noteq> []"
proof (cases a)
  case (DoRequest req ok)
  with assms show ?thesis by (auto split: sum.splits dest: Request_SessionId)
next
  case (DoReceive rcv)
  show ?thesis
  proof (cases rcv)
    case ReceiveError
    with assms DoReceive show ?thesis
      by (auto split: sum.splits dest: handleResponse_iter_ReceiveError)
  next
    case (Received m)
    with assms(1) DoReceive obtain b where i: "handleResponse_iter cfg c (Received m) = Inr (c', b)"
      by (auto split: sum.splits)
    show ?thesis
    proof (cases "valid_json m \<and> Response_unmarshal (Response_err m) (Response_struct m)")
      case False
      from handleResponse_iter_not_response [OF False i] assms(2) show ?thesis by simp
    next
      case True
      then have v: "valid_json m" "Response_unmarshal (Response_err m) (Response_struct m)"
        by simp_all
      from handleResponse_iter_SessionId [OF v i] assms(2)
      have "assert_string (index_map (Result (Response_struct m)) ''sessionId'') = Some (SessionId c')"
        and "SessionId c' \<noteq> []"
        by (auto split: option.splits if_splits)
      with v DoReceive Received show ?thesis
        by (auto simp: index_map_IString)
    qed
  qed
next
  case DoEvents
  with assms show ?thesis by (auto split: sum.splits dest: handleEvents_iter_frame)
next
  case (DoSubscribe t ob H h)
  with assms show ?thesis by (auto simp: Subscribe_def Let_def)
next
  case (DoUnsubscribe t ob H)
  with assms show ?thesis by (auto simp: Unsubscribe_def split: option.splits)
next
  case DoTakeDead
  with assms show ?thesis by (auto simp: take_Dead_def split: list.splits)
qed

lemma run_SessionId_nonempty:
  assumes "SessionId c \<noteq> []" and "run cfg c as = Inr c'"
  shows "SessionId c' \<noteq> []"
  using assms
proof (induction as arbitrary: c)
  case Nil
  then show ?case by simp
next
  case (Cons a as)
  from Cons.prems(2) obtain c1 where 1: "exec cfg c a = Inr c1" and 2: "run cfg c1 as = Inr c'"
    by (auto split: sum.splits)
  have "SessionId c1 \<noteq> []"
    using exec_SessionId_changed [OF 1] Cons.prems(1) by (cases "SessionId c1 = SessionId c") auto
  from Cons.IH [OF this 2] show ?case .
qed

text \<open>
  C7. A transition changes the session token only if it is the receive loop processing a
  frame classified as a response whose result holds a string under \<^verbatim>\<open>sessionId\<close>, and the
  new token is that string, which is not empty (and differs from the old token, the token
  having changed); such a frame with a non-empty string does set the token to it. A token
  that is not empty stays non-empty through every sequence of transitions, and on a live
  connection with a non-empty token the envelope a \<^verbatim>\<open>Request\<close> hands to the websocket
  carries the token under \<^verbatim>\<open>sessionId\<close>.
\<close>

theorem session_token:
  "(exec cfg c a = Inr c' \<and> SessionId c' \<noteq> SessionId c \<longrightarrow>
      (\<exists>m al. a = DoReceive (Received m) \<and> valid_json m \<and>
         Response_unmarshal (Response_err m) (Response_struct m) \<and>
         Result (Response_struct m) = Some al \<and>
         map_of al ''sessionId'' = Some (IString (SessionId c')) \<and> SessionId c' \<noteq> [])) \<and>
   (valid_json m1 \<and> Response_unmarshal (Response_err m1) (Response_struct m1) \<and>
    Result (Response_struct m1) = Some al1 \<and> map_of al1 ''sessionId'' = Some (IString s) \<and>
    s \<noteq> [] \<and> handleResponse_iter cfg c (Received m1) = Inr (c1, b) \<longrightarrow> SessionId c1 = s) \<and>
   (SessionId c \<noteq> [] \<and> run cfg c as = Inr c2 \<longrightarrow> SessionId c2 \<noteq> []) \<and>
   (wf c \<and> \<not> IsDead c \<and> SessionId c \<noteq> [] \<longrightarrow>
      (\<exists>c3 e ch. Request cfg ok c (Some q) = Inr (c3, Some e, ch) \<and>
         ws_out c3 = ws_out c @ [e] \<and>
         map_of e ''sessionId'' = Some (IString (SessionId c))))"
proof (intro conjI impI)
  assume "exec cfg c a = Inr c' \<and> SessionId c' \<noteq> SessionId c"
  then show "\<exists>m al. a = DoReceive (Received m) \<and> valid_json m \<and>
         Response_unmarshal (Response_err m) (Response_struct m) \<and>
         Result (Response_struct m) = Some al \<and>
         map_of al ''sessionId'' = Some (IString (SessionId c')) \<and> SessionId c' \<noteq> []"
    using exec_SessionId_changed by blast
next
  assume a: "valid_json m1 \<and> Response_unmarshal (Response_err m1) (Response_struct m1) \<and>
    Result (Response_struct m1) = Some al1 \<and> map_of al1 ''sessionId'' = Some (IString s) \<and>
    s \<noteq> [] \<and> handleResponse_iter cfg c (Received m1) = Inr (c1, b)"
  then have "assert_string (index_map (Result (Response_struct m1)) ''sessionId'') = Some s"
    by (simp add: index_map_IString)
  with a handleResponse_iter_SessionId [of m1 cfg c c1 b] show "SessionId c1 = s"
    by auto
next
  assume "SessionId c \<noteq> [] \<and> run cfg c as = Inr c2"
  then show "SessionId c2 \<noteq> []"
    using run_SessionId_nonempty by blast
next
  assume a: "wf c \<and> \<not> IsDead c \<and> SessionId c \<noteq> []"
  note w = wfD [of c]
  show "\<exists>c3 e ch. Request cfg ok c (Some q) = Inr (c3, Some e, ch) \<and>
         ws_out c3 = ws_out c @ [e] \<and>
         map_of e ''sessionId'' = Some (IString (SessionId c))"
  proof (cases ok)
    case True
    from Request_live_sent [of c cfg q] a True show ?thesis
      by (auto simp: update_conv')
  next
    case False
    have "length (buf (Dead c)) < cap (Dead c)"
      using a w(1,3) by simp
    from Request_live_failed [OF _ _ this, of cfg q] a w(2) False show ?thesis
      by (auto simp: update_conv')
  qed
qed

lemma wf_examples_more:
  "wf conn1_answered" "wf conn0_subscribed"
  by (simp_all add: wf_def wf_events_def sent_ids_def envelope_id_def index_map_def
      conn0_def conn1_def conn1_answered_def conn0_subscribed_def req_create_def make_chan_def)

theorem session_token_witness:
  "exec cfg0 conn1 (DoReceive (Received msg_result1)) = Inr conn1_answered \<and>
   SessionId conn1_answered \<noteq> SessionId conn1 \<and>
   valid_json msg_result1 \<and>
   Response_unmarshal (Response_err msg_result1) (Response_struct msg_result1) \<and>
   map_of (the (Result (Response_struct msg_result1))) ''sessionId'' = Some (IString ''s1'') \<and>
   SessionId conn1_answered = ''s1'' \<and>
   run cfg0 conn1_answered [DoSubscribe ''Error'' ''obj1'' ''h1'' 7] =
     Inr (Subscribe conn1_answered ''Error'' ''obj1'' ''h1'' 7) \<and>
   SessionId (Subscribe conn1_answered ''Error'' ''obj1'' ''h1'' 7) \<noteq> [] \<and>
   wf conn1_answered \<and> \<not> IsDead conn1_answered \<and>
   (\<exists>c3 e ch. Request cfg0 True conn1_answered (Some req_create) = Inr (c3, Some e, ch) \<and>
      ws_out c3 = ws_out conn1_answered @ [e] \<and>
      map_of e ''sessionId'' = Some (IString ''s1''))"
proof -
  have 1: "exec cfg0 conn1 (DoReceive (Received msg_result1)) = Inr conn1_answered"
    by (simp add: handleResponse_iter_def Let_def sendToClient_def
      saveSessionId_def Response_unmarshal_def Event_unmarshal_def index_map_def logf_def
      silly_def chan_send_def chan_close_def make_chan_def
      cfg0_def conn0_def conn1_def conn1_answered_def req_create_def msg_result1_def
      resp_result1_def no_Event_def word_sless_alt)
  have 2: "SessionId conn1_answered \<noteq> SessionId conn1" "SessionId conn1_answered = ''s1''"
    "\<not> IsDead conn1_answered"
    by (simp_all add: conn1_answered_def conn1_def conn0_def)
  have 3: "valid_json msg_result1"
    "Response_unmarshal (Response_err msg_result1) (Response_struct msg_result1)"
    "map_of (the (Result (Response_struct msg_result1))) ''sessionId'' = Some (IString ''s1'')"
    by (simp_all add: msg_result1_def resp_result1_def Response_unmarshal_def word_sless_alt)
  have 4: "run cfg0 conn1_answered [DoSubscribe ''Error'' ''obj1'' ''h1'' 7] =
     Inr (Subscribe conn1_answered ''Error'' ''obj1'' ''h1'' 7)"
    by simp
  have 5: "handleResponse_iter cfg0 conn1 (Received msg_result1) = Inr (conn1_answered, True)"
    using 1 by (auto split: sum.splits dest: handleResponse_iter_Received_frame)
  from session_token [of cfg0 conn1 "DoReceive (Received msg_result1)" conn1_answered
      msg_result1 "the (Result (Response_struct msg_result1))" "''s1''" conn1_answered True
      "[]" conn1 True req_create]
    session_token [of cfg0 conn1_answered "DoSubscribe ''Error'' ''obj1'' ''h1'' 7"
      "Subscribe conn1_answered ''Error'' ''obj1'' ''h1'' 7" msg_result1
      "the (Result (Response_struct msg_result1))" "''s1''" conn1_answered True
      "[DoSubscribe ''Error'' ''obj1'' ''h1'' 7]"
      "Subscribe conn1_answered ''Error'' ''obj1'' ''h1'' 7" True req_create]
    1 2 3 4 5 wf_examples_more(1)
  show ?thesis by simp
qed


section \<open>Event dispatch\<close>

lemma handlers_of_eChan [simp]:
  "handlers_of (c\<lparr>eChan := e\<rparr>) t ob = handlers_of c t ob"
  by (simp add: handlers_of_def)

lemma fired_handlers:
  assumes "distinct (map fst he)"
  shows "set (map (\<lambda>nh. (snd nh, d)) he) = {(h, d) | H h. map_of he H = Some h}"
  using assms by (force simp: map_of_eq_Some_iff)

text \<open>
  C8. Let the event loop take a well-formed event of type \<open>t\<close>, object \<open>ob\<close> and payload
  \<open>d\<close> off its channel. It returns without panic, and the callbacks it calls are exactly
  those registered under \<open>(t, ob, H)\<close> for some handler id \<open>H\<close>, once for each such \<open>H\<close>,
  each with argument \<open>d\<close>; with none registered it calls nothing. The pending set, the
  response channels and the registry are left as they were. \<^verbatim>\<open>Subscribe\<close> registers its
  callback under exactly its triple and \<^verbatim>\<open>Unsubscribe\<close> removes exactly its triple, every
  other triple keeping its callback; so a callback subscribed for another object or type,
  or unsubscribed again, is not among those called.
\<close>

theorem event_dispatch:
  assumes "wf_events c" and "buf (eChan c) = ev # rest"
    and "Params ev = Some p" and "map_of p ''value'' = Some (IMap v)"
    and "map_of v ''type'' = Some (IString t)" and "map_of v ''object'' = Some (IString ob)"
    and "map_of v ''data'' = Some (IMap d)"
  shows "(\<exists>c' new. handleEvents_iter cfg c = Inr (c', True) \<and>
            invoked c' = invoked c @ new \<and>
            mset new = image_mset (\<lambda>H. (the (subscriber c t ob H), d))
                         (mset_set {H. subscriber c t ob H \<noteq> None}) \<and>
            set new = {(h, d) | H h. subscriber c t ob H = Some h} \<and>
            buf (eChan c') = rest \<and> clients c' = clients c \<and> heap c' = heap c \<and>
            events c' = events c) \<and>
         (\<forall>t' ob' H'. subscriber (Subscribe c t1 ob1 H1 h1) t' ob' H' =
            (if t' = t1 \<and> ob' = ob1 \<and> H' = H1 then Some h1 else subscriber c t' ob' H')) \<and>
         (\<forall>t' ob' H'. subscriber (Unsubscribe c t1 ob1 H1) t' ob' H' =
            (if t' = t1 \<and> ob' = ob1 \<and> H' = H1 then None else subscriber c t' ob' H')) \<and>
         wf_events (Subscribe c t1 ob1 H1 h1) \<and> wf_events (Unsubscribe c t1 ob1 H1)"
proof -
  let ?c0 = "c\<lparr>eChan := (eChan c)\<lparr>buf := rest\<rparr>\<rparr>"
  let ?he = "handlers_of c t ob"
  let ?new = "map (\<lambda>nh. (snd nh, d)) ?he"
  from handleEvents_body_wellformed [OF assms(3-7), of cfg ?c0]
  obtain c' where b: "handleEvents_body cfg ?c0 ev = Inr c'"
    and i: "invoked c' = invoked c @ ?new"
    by auto
  from b assms(2) have 1: "handleEvents_iter cfg c = Inr (c', True)"
    by (simp add: handleEvents_iter_def)
  from handleEvents_body_frame [OF b]
  have f: "buf (eChan c') = rest" "clients c' = clients c" "heap c' = heap c"
    "events c' = events c"
    by simp_all
  have dis: "distinct (map fst ?he)"
    using assms(1) by (rule wf_events_handlers_of)
  have dom: "{H. subscriber c t ob H \<noteq> None} = dom (map_of ?he)"
    by (auto simp: subscriber_handlers_of)
  have m: "mset ?new = image_mset (\<lambda>H. (the (subscriber c t ob H), d))
                         (mset_set {H. subscriber c t ob H \<noteq> None})"
    unfolding dom using mset_handlers [OF dis, of d] by (simp add: subscriber_handlers_of)
  have s: "set ?new = {(h, d) | H h. subscriber c t ob H = Some h}"
    using fired_handlers [OF dis, of d] by (simp add: subscriber_handlers_of)
  from 1 i m s f have "\<exists>c' new. handleEvents_iter cfg c = Inr (c', True) \<and>
            invoked c' = invoked c @ new \<and>
            mset new = image_mset (\<lambda>H. (the (subscriber c t ob H), d))
                         (mset_set {H. subscriber c t ob H \<noteq> None}) \<and>
            set new = {(h, d) | H h. subscriber c t ob H = Some h} \<and>
            buf (eChan c') = rest \<and> clients c' = clients c \<and> heap c' = heap c \<and>
            events c' = events c"
    by blast
  then show ?thesis
    using wf_events_Subscribe [OF assms(1)] wf_events_Unsubscribe [OF assms(1)]
    by (simp add: subscriber_Subscribe subscriber_Unsubscribe)
qed

theorem event_dispatch_witness:
  "wf_events conn0_boom \<and>
   buf (eChan conn0_boom) = [event_boom] \<and>
   Params event_boom =
     Some [(''value'', IMap [(''type'', IString ''Error''), (''object'', IString ''obj1''),
                            (''data'', IMap [(''msg'', IString ''boom'')])])] \<and>
   subscriber conn0_boom ''Error'' ''obj1'' ''h1'' = Some 7 \<and>
   conn0_subscribed = Subscribe conn0 ''Error'' ''obj1'' ''h1'' 7 \<and>
   (\<exists>c' new.
      handleEvents_iter cfg0 conn0_boom = Inr (c', True) \<and>
      invoked c' = new \<and> set new = {(7, [(''msg'', IString ''boom'')])} \<and>
      buf (eChan c') = []) \<and>
   subscriber (Unsubscribe conn0_boom ''Error'' ''obj1'' ''h1'') ''Error'' ''obj1'' ''h1'' = None"
proof -
  have w: "wf_events conn0_boom"
    by (simp add: wf_events_def conn0_boom_def conn0_subscribed_def conn0_def)
  have b: "buf (eChan conn0_boom) = event_boom # []"
    by (simp add: conn0_boom_def)
  have p: "Params event_boom =
     Some [(''value'', IMap [(''type'', IString ''Error''), (''object'', IString ''obj1''),
                            (''data'', IMap [(''msg'', IString ''boom'')])])]"
    by (simp add: event_boom_def)
  have s: "\<And>H h. subscriber conn0_boom ''Error'' ''obj1'' H = Some h \<longleftrightarrow> H = ''h1'' \<and> h = 7"
    "subscriber conn0_boom ''Error'' ''obj1'' ''h1'' = Some 7"
    "conn0_subscribed = Subscribe conn0 ''Error'' ''obj1'' ''h1'' 7"
    by (auto simp add: subscriber_def Subscribe_def conn0_boom_def conn0_subscribed_def conn0_def)
  have v: "map_of [(''value'', IMap [(''type'', IString ''Error''), (''object'', IString ''obj1''),
                            (''data'', IMap [(''msg'', IString ''boom'')])])] ''value'' =
       Some (IMap [(''type'', IString ''Error''), (''object'', IString ''obj1''),
                            (''data'', IMap [(''msg'', IString ''boom'')])])"
    "map_of [(''type'', IString ''Error''), (''object'', IString ''obj1''),
                            (''data'', IMap [(''msg'', IString ''boom'')])] ''type'' =
       Some (IString ''Error'')"
    "map_of [(''type'', IString ''Error''), (''object'', IString ''obj1''),
                            (''data'', IMap [(''msg'', IString ''boom'')])] ''object'' =
       Some (IString ''obj1'')"
    "map_of [(''type'', IString ''Error''), (''object'', IString ''obj1''),
                            (''data'', IMap [(''msg'', IString ''boom'')])] ''data'' =
       Some (IMap [(''msg'', IString ''boom'')])"
    by simp_all
  note e = event_dispatch [OF w b p v, of cfg0 "''Error''" "''obj1''" "''h1''" 7]
  from e [THEN conjunct1] obtain c' new where "handleEvents_iter cfg0 conn0_boom = Inr (c', True)"
    "invoked c' = invoked conn0_boom @ new"
    "set new = {(h, [(''msg'', IString ''boom'')]) | H h.
                  subscriber conn0_boom ''Error'' ''obj1'' H = Some h}"
    "buf (eChan c') = []"
    by blast
  moreover have "{(h, [(''msg'', IString ''boom'')]) | H h.
                  subscriber conn0_boom ''Error'' ''obj1'' H = Some h} =
      {(7, [(''msg'', IString ''boom'')])}"
    by (auto simp: s(1))
  moreover have "invoked conn0_boom = []"
    by (simp add: conn0_boom_def conn0_subscribed_def conn0_def)
  ultimately have x: "\<exists>c' new. handleEvents_iter cfg0 conn0_boom = Inr (c', True) \<and>
      invoked c' = new \<and> set new = {(7, [(''msg'', IString ''boom'')])} \<and>
      buf (eChan c') = []"
    by (intro exI [of _ c'] exI [of _ new]) simp
  have u: "subscriber (Unsubscribe conn0_boom ''Error'' ''obj1'' ''h1'') ''Error'' ''obj1'' ''h1'' = None"
    using e by simp
  from w b p s(2,3) x u show ?thesis by simp
qed


end
